theory Spec2Isabelle
  imports Complex_Main
begin

section \<open>Values, field maps and the remote store\<close>

text \<open>
  A field value is a JavaScript value. The wrapper tells three kinds apart: the value
  \<^verbatim>\<open>undefined\<close> (\<^verbatim>\<open>typeof value === 'undefined'\<close>), a Firestore \<^verbatim>\<open>Timestamp\<close>
  (\<^verbatim>\<open>value instanceof Timestamp\<close>; seconds and nanoseconds) and everything else. The
  store's own write sentinel \<^verbatim>\<open>FieldValue.delete()\<close> and the JavaScript \<^verbatim>\<open>Date\<close>
  (milliseconds since the epoch) are values of their own; any other value is \<open>Other\<close>.
\<close>

datatype 'a jsvalue =
    Undefined
  | Timestamp int int
  | DateValue int
  | FieldDelete
  | Other 'a

text \<open>
  \<^verbatim>\<open>docFields\<close> is a plain object: a finite map from own property names to values.
  \<^verbatim>\<open>Object.keys(o).includes(k)\<close> is \<open>o k \<noteq> None\<close>; reading a missing property gives
  \<^verbatim>\<open>undefined\<close>.
\<close>

type_synonym 'a fields = "string \<rightharpoonup> 'a jsvalue"

text \<open>\<^verbatim>\<open>type MaybeCallable<T> = (() => T) | T\<close>\<close>

datatype maybeCallable = Literal string | Callable "unit \<Rightarrow> string"

text \<open>
  What a call can fail with: the string thrown by \<^verbatim>\<open>load\<close>, or an error of the store
  that passes through unchanged.
\<close>

datatype error = Thrown string | StoreError string

text \<open>
  The Firestore collaborator. \<open>documents\<close> maps a document path to the stored data;
  \<open>collections\<close> gives, for a collection path, the documents (id and data) an unfiltered
  query returns, in the store's order; \<open>autoIds\<close> are the ids \<^verbatim>\<open>collection(p).doc()\<close>
  generates, \<open>allocated\<close> counts how many have been handed out; \<open>calls\<close> records every
  call made to the store, in order.
\<close>

datatype 'a call =
    DocCall string
  | GetCall string
  | SetCall string "'a fields" bool
  | DeleteCall string
  | QueryCall string nat nat

record 'a firestore =
  documents :: "string \<rightharpoonup> 'a fields"
  collections :: "string \<Rightarrow> (string \<times> 'a fields) list"
  autoIds :: "nat \<Rightarrow> string"
  allocated :: nat
  calls :: "'a call list"

text \<open>\<^verbatim>\<open>firestore.collection(path).doc()\<close>: a fresh reference (its path and its id).\<close>

definition collection_doc :: "'a firestore \<Rightarrow> string \<Rightarrow> (string \<times> string) \<times> 'a firestore" where
  "collection_doc fs path =
     (let newId = autoIds fs (allocated fs)
      in ((path @ ''/'' @ newId, newId),
          fs\<lparr>allocated := Suc (allocated fs), calls := calls fs @ [DocCall path]\<rparr>))"

text \<open>\<^verbatim>\<open>docRef.get()\<close> followed by \<^verbatim>\<open>snapshot.data()\<close>: \<open>None\<close> is \<^verbatim>\<open>undefined\<close>.\<close>

definition docRef_get :: "'a firestore \<Rightarrow> string \<Rightarrow> 'a fields option \<times> 'a firestore" where
  "docRef_get fs path = (documents fs path, fs\<lparr>calls := calls fs @ [GetCall path]\<rparr>)"

text \<open>
  What a merging write leaves in a document: a field of the payload replaces the stored
  one, the sentinel \<open>FieldDelete\<close> removes it, every other stored field stays.
\<close>

definition mergeFields :: "'a fields \<Rightarrow> 'a fields \<Rightarrow> 'a fields" where
  "mergeFields old payload =
     (\<lambda>k. case payload k of
            None \<Rightarrow> old k
          | Some FieldDelete \<Rightarrow> None
          | Some v \<Rightarrow> Some v)"

text \<open>
  \<^verbatim>\<open>docRef.set(data, {merge})\<close>. With \<^verbatim>\<open>merge: true\<close> the document is created or its
  fields are merged; with \<^verbatim>\<open>merge: false\<close> the document is replaced by the payload, and
  Firestore rejects a payload that holds \<^verbatim>\<open>FieldValue.delete()\<close>. Other validation and
  the encoding of values by the store are left out.
\<close>

definition docRef_set ::
  "'a firestore \<Rightarrow> string \<Rightarrow> 'a fields \<Rightarrow> bool \<Rightarrow> error option \<times> 'a firestore" where
  "docRef_set fs path payload merge =
     (let fs1 = fs\<lparr>calls := calls fs @ [SetCall path payload merge]\<rparr>
      in if merge then
           (None, fs1\<lparr>documents := (documents fs)(path \<mapsto>
               mergeFields (case documents fs path of None \<Rightarrow> Map.empty | Some old \<Rightarrow> old) payload)\<rparr>)
         else if FieldDelete \<in> ran payload then
           (Some (StoreError ''FieldValue.delete() can only be used in update() or set() with {merge:true}''), fs1)
         else
           (None, fs1\<lparr>documents := (documents fs)(path \<mapsto> payload)\<rparr>))"

text \<open>\<^verbatim>\<open>docRef.delete()\<close>\<close>

definition docRef_delete :: "'a firestore \<Rightarrow> string \<Rightarrow> 'a firestore" where
  "docRef_delete fs path =
     fs\<lparr>documents := (documents fs)(path := None), calls := calls fs @ [DeleteCall path]\<rparr>"

text \<open>
  \<^verbatim>\<open>collection.offset(o).limit(n).get()\<close> and \<^verbatim>\<open>snapshot.docs\<close>: a window of the
  collection's listing.
\<close>

definition query_get ::
  "'a firestore \<Rightarrow> string \<Rightarrow> nat \<Rightarrow> nat \<Rightarrow> (string \<times> 'a fields) list \<times> 'a firestore" where
  "query_get fs path off n =
     (take n (drop off (collections fs path)),
      fs\<lparr>calls := calls fs @ [QueryCall path off n]\<rparr>)"

section \<open>The document handle\<close>

text \<open>
  The class \<^verbatim>\<open>FireDoc\<close> of \<^verbatim>\<open>FireDoc.ts\<close>. \<open>docRef\<close> is the path of the document the
  handle is bound to. The member \<^verbatim>\<open>firestore\<close> is the store every operation takes as an
  argument. The single-file variant of the class (\<^verbatim>\<open>Main\<close>) carries one more member,
  \<^verbatim>\<open>isNewDocument\<close>.
\<close>

record 'a FireDoc =
  collectionPath :: maybeCallable
  docRefId :: string
  docFields :: "'a fields"
  docFieldKeysChanged :: "string list"
  docRef :: string

record 'a Main = "'a FireDoc" +
  isNewDocument :: bool

text \<open>The constructor's \<^verbatim>\<open>options\<close> (\<^verbatim>\<open>id?\<close>, \<^verbatim>\<open>docFields?\<close>, \<^verbatim>\<open>collectionPath\<close>).\<close>

record 'a options =
  opt_id :: "string option"
  opt_docFields :: "'a fields option"
  opt_collectionPath :: maybeCallable

definition resolvePath :: "maybeCallable \<Rightarrow> string" where
  "resolvePath p = (case p of Callable f \<Rightarrow> f () | Literal s \<Rightarrow> s)"

definition getCollectionPath :: "('a, 'z) FireDoc_scheme \<Rightarrow> string" where
  "getCollectionPath h = resolvePath (collectionPath h)"

definition getDocumentPath :: "('a, 'z) FireDoc_scheme \<Rightarrow> string" where
  "getDocumentPath h = getCollectionPath h @ ''/'' @ docRefId h"

text \<open>\<^verbatim>\<open>if(id)\<close>: a string is truthy when it is given and not empty.\<close>

definition truthy :: "string option \<Rightarrow> bool" where
  "truthy i = (case i of None \<Rightarrow> False | Some s \<Rightarrow> s \<noteq> [])"

definition FireDoc_constructor :: "'a firestore \<Rightarrow> 'a options \<Rightarrow> 'a FireDoc \<times> 'a firestore" where
  "FireDoc_constructor fs options =
     (let flds = (case opt_docFields options of None \<Rightarrow> Map.empty | Some f \<Rightarrow> f);
          cp = opt_collectionPath options
      in if truthy (opt_id options) then
           (\<lparr>collectionPath = cp, docRefId = the (opt_id options), docFields = flds,
             docFieldKeysChanged = [],
             docRef = resolvePath cp @ ''/'' @ the (opt_id options)\<rparr>, fs)
         else
           (case collection_doc fs (resolvePath cp) of
              ((refPath, refId), fs') \<Rightarrow>
                (\<lparr>collectionPath = cp, docRefId = refId, docFields = flds,
                  docFieldKeysChanged = [], docRef = refPath\<rparr>, fs')))"

definition Main_constructor :: "'a firestore \<Rightarrow> 'a options \<Rightarrow> 'a Main \<times> 'a firestore" where
  "Main_constructor fs options =
     (let flds = (case opt_docFields options of None \<Rightarrow> Map.empty | Some f \<Rightarrow> f);
          cp = opt_collectionPath options
      in if truthy (opt_id options) then
           (\<lparr>collectionPath = cp, docRefId = the (opt_id options), docFields = flds,
             docFieldKeysChanged = [],
             docRef = resolvePath cp @ ''/'' @ the (opt_id options),
             isNewDocument = False\<rparr>, fs)
         else
           (case collection_doc fs (resolvePath cp) of
              ((refPath, refId), fs') \<Rightarrow>
                (\<lparr>collectionPath = cp, docRefId = refId, docFields = flds,
                  docFieldKeysChanged = [], docRef = refPath,
                  isNewDocument = True\<rparr>, fs')))"

definition getDocDataForSaveOperation :: "('a, 'z) FireDoc_scheme \<Rightarrow> bool \<Rightarrow> 'a fields" where
  "getDocDataForSaveOperation h onlyChanged =
     (if onlyChanged then
        foldl (\<lambda>docFieldsToSave key.
                 case docFields h key of
                   Some v \<Rightarrow> docFieldsToSave(key \<mapsto> v)
                 | None \<Rightarrow> docFieldsToSave)
          Map.empty (docFieldKeysChanged h)
      else Map.empty ++ docFields h)"

definition resetDocFieldKeysChanged :: "('a, 'z) FireDoc_scheme \<Rightarrow> ('a, 'z) FireDoc_scheme" where
  "resetDocFieldKeysChanged h = h\<lparr>docFieldKeysChanged := []\<rparr>"

definition getAllFields :: "('a, 'z) FireDoc_scheme \<Rightarrow> 'a fields" where
  "getAllFields h = docFields h"

text \<open>
  \<^verbatim>\<open>Timestamp.toDate()\<close> belongs to the Firestore library; \<open>getField\<close> takes it as the
  parameter \<open>toDate\<close> (seconds and nanoseconds to milliseconds).
\<close>

definition getField ::
  "(int \<Rightarrow> int \<Rightarrow> int) \<Rightarrow> ('a, 'z) FireDoc_scheme \<Rightarrow> string \<Rightarrow> 'a jsvalue" where
  "getField toDate h fieldName =
     (let v = (case docFields h fieldName of None \<Rightarrow> Undefined | Some x \<Rightarrow> x)
      in case v of Timestamp s n \<Rightarrow> DateValue (toDate s n) | _ \<Rightarrow> v)"

definition setField ::
  "('a, 'z) FireDoc_scheme \<Rightarrow> string \<Rightarrow> 'a jsvalue \<Rightarrow> ('a, 'z) FireDoc_scheme" where
  "setField h fieldName v =
     h\<lparr>docFields := (docFields h)(fieldName \<mapsto> (if v = Undefined then FieldDelete else v)),
       docFieldKeysChanged := docFieldKeysChanged h @ [fieldName]\<rparr>"

text \<open>\<^verbatim>\<open>setFields\<close> takes the entries of its argument, in the order of \<^verbatim>\<open>Object.entries\<close>.\<close>

definition setFields ::
  "('a, 'z) FireDoc_scheme \<Rightarrow> (string \<times> 'a jsvalue) list \<Rightarrow> ('a, 'z) FireDoc_scheme" where
  "setFields h entries = foldl (\<lambda>h' (key, v). setField h' key v) h entries"

text \<open>
  \<^verbatim>\<open>load\<close> throws a string when the document does not exist, before it changes the
  handle; otherwise it returns the handle with the fetched data.
\<close>

definition load ::
  "('a, 'z) FireDoc_scheme \<Rightarrow> 'a firestore \<Rightarrow> (error + ('a, 'z) FireDoc_scheme) \<times> 'a firestore" where
  "load h fs =
     (case docRef_get fs (docRef h) of
        (Some docData, fs') \<Rightarrow> (Inr ((resetDocFieldKeysChanged h)\<lparr>docFields := docData\<rparr>), fs')
      | (None, fs') \<Rightarrow> (Inl (Thrown (''Document '' @ docRefId h @ '' does not exist'')), fs'))"

text \<open>
  The argument of \<^verbatim>\<open>save\<close>: \<^verbatim>\<open>boolean | 'changes' | 'overwrite'\<close>, \<^verbatim>\<open>'changes'\<close> when it
  is left out.
\<close>

datatype saveOption = OptBool bool | Changes | Overwrite

definition onlyChangesOf :: "saveOption \<Rightarrow> bool" where
  "onlyChangesOf option = (case option of OptBool b \<Rightarrow> b | Changes \<Rightarrow> True | Overwrite \<Rightarrow> False)"

text \<open>
  \<^verbatim>\<open>save\<close> changes the handle before it writes, so the handle is returned next to the
  outcome: \<open>None\<close> when the call returns the handle, \<open>Some e\<close> when the store's write fails.
  \<open>save\<close> is the method of \<^verbatim>\<open>FireDoc.ts\<close> (\<^verbatim>\<open>{merge: onlyChanges}\<close>), \<open>Main_save\<close> the one
  of the single-file variant (\<^verbatim>\<open>{merge: true}\<close>).
\<close>

definition save ::
  "saveOption \<Rightarrow> ('a, 'z) FireDoc_scheme \<Rightarrow> 'a firestore \<Rightarrow>
     error option \<times> ('a, 'z) FireDoc_scheme \<times> 'a firestore" where
  "save option h fs =
     (let onlyChanges = onlyChangesOf option;
          docData = getDocDataForSaveOperation h onlyChanges;
          h' = resetDocFieldKeysChanged h
      in if docData \<noteq> Map.empty then
           (case docRef_set fs (docRef h) docData onlyChanges of (r, fs') \<Rightarrow> (r, h', fs'))
         else (None, h', fs))"

definition Main_save ::
  "saveOption \<Rightarrow> ('a, 'z) FireDoc_scheme \<Rightarrow> 'a firestore \<Rightarrow>
     error option \<times> ('a, 'z) FireDoc_scheme \<times> 'a firestore" where
  "Main_save option h fs =
     (let onlyChanges = onlyChangesOf option;
          docData = getDocDataForSaveOperation h onlyChanges;
          h' = resetDocFieldKeysChanged h
      in if docData \<noteq> Map.empty then
           (case docRef_set fs (docRef h) docData True of (r, fs') \<Rightarrow> (r, h', fs'))
         else (None, h', fs))"

definition save_default ::
  "('a, 'z) FireDoc_scheme \<Rightarrow> 'a firestore \<Rightarrow> error option \<times> ('a, 'z) FireDoc_scheme \<times> 'a firestore" where
  "save_default h fs = save Changes h fs"

definition delete :: "('a, 'z) FireDoc_scheme \<Rightarrow> 'a firestore \<Rightarrow> ('a, 'z) FireDoc_scheme \<times> 'a firestore" where
  "delete h fs = (h, docRef_delete fs (docRef h))"

section \<open>The manual search of the collection binder\<close>

text \<open>
  \<^verbatim>\<open>withRawFilter\<close> of \<^verbatim>\<open>registerFireDoc\<close>. Its input: \<^verbatim>\<open>page\<close> and \<^verbatim>\<open>perPage\<close> are
  JavaScript numbers, taken here as integers, and \<^verbatim>\<open>filter\<close> is a total predicate on a
  document's data and id. The result is \<^verbatim>\<open>{allPages, docs}\<close>.
\<close>

record 'a searchInput =
  page :: int
  perPage :: int
  filterFn :: "'a fields \<Rightarrow> string \<Rightarrow> bool"

text \<open>
  \<^verbatim>\<open>allPages\<close> is a JavaScript number: dividing by zero gives \<^verbatim>\<open>Infinity\<close>, or \<^verbatim>\<open>NaN\<close>
  for \<^verbatim>\<open>0 / 0\<close>.
\<close>

datatype jsnumber = Finite int | Infinity | NaN

record 'a searchResult =
  allPages :: jsnumber
  docs :: "'a FireDoc list"

definition searchPerPage :: nat where
  "searchPerPage = 100"

text \<open>\<^verbatim>\<open>docs.filter(doc => input.filter(doc.data(), doc.id)).map(doc => doc.id)\<close>\<close>

definition matchingIds :: "('a fields \<Rightarrow> string \<Rightarrow> bool) \<Rightarrow> (string \<times> 'a fields) list \<Rightarrow> string list" where
  "matchingIds flt ds = map fst (filter (\<lambda>(i, d). flt d i) ds)"

text \<open>The \<^verbatim>\<open>while(true)\<close> loop, from the scan page \<open>searchPage\<close> on.\<close>

function scanLoop ::
  "'a firestore \<Rightarrow> string \<Rightarrow> ('a fields \<Rightarrow> string \<Rightarrow> bool) \<Rightarrow> nat \<Rightarrow> string list \<Rightarrow>
     string list \<times> 'a firestore" where
  "scanLoop fs path flt searchPage searchFoundItemIds =
     (case query_get fs path (searchPage * searchPerPage) searchPerPage of
        (ds, fs') \<Rightarrow>
          (let ids = matchingIds flt ds
           in if ids = [] then (searchFoundItemIds, fs')
              else scanLoop fs' path flt (Suc searchPage) (searchFoundItemIds @ ids)))"
  by pat_completeness auto
termination
proof (relation "measure (\<lambda>(fs, path, flt, searchPage, found).
                   length (collections fs path) - searchPage * searchPerPage)")
  show "wf (measure (\<lambda>(fs :: 'a firestore, path, flt :: 'a fields \<Rightarrow> string \<Rightarrow> bool,
                       searchPage, found :: string list).
                   length (collections fs path) - searchPage * searchPerPage))"
    by simp
next
  fix fs :: "'a firestore" and path flt searchPage
    and searchFoundItemIds :: "string list" and x ds fs' ids
  assume q: "(ds, fs') = query_get fs path (searchPage * searchPerPage) searchPerPage"
    and x: "x = matchingIds flt ds" and ne: "x \<noteq> []"
  from q have ds: "ds = take searchPerPage (drop (searchPage * searchPerPage) (collections fs path))"
    and fs': "collections fs' path = collections fs path"
    by (simp_all add: query_get_def)
  from x ne have "ds \<noteq> []"
    by (auto simp: matchingIds_def)
  with ds have "searchPage * searchPerPage < length (collections fs path)"
    by (cases "searchPage * searchPerPage < length (collections fs path)") simp_all
  with fs' show "((fs', path, flt, Suc searchPage, searchFoundItemIds @ x),
                  (fs, path, flt, searchPage, searchFoundItemIds))
          \<in> measure (\<lambda>(fs, path, flt, searchPage, found).
                   length (collections fs path) - searchPage * searchPerPage)"
    by (simp add: searchPerPage_def)
qed

declare scanLoop.simps [simp del]

text \<open>\<^verbatim>\<open>Math.ceil(length / perPage)\<close> for a length and an integer \<^verbatim>\<open>perPage\<close>.\<close>

definition Math_ceil_div :: "nat \<Rightarrow> int \<Rightarrow> jsnumber" where
  "Math_ceil_div n d =
     (if d = 0 then (if n = 0 then NaN else Infinity)
      else Finite (- ((- int n) div d)))"

text \<open>
  \<^verbatim>\<open>Array.prototype.slice(start, end)\<close> with integer arguments: a negative index counts
  from the end, every index is clamped to the array.
\<close>

definition slice :: "'b list \<Rightarrow> int \<Rightarrow> int \<Rightarrow> 'b list" where
  "slice xs start fin =
     (let len = int (length xs);
          k = (if start < 0 then max (len + start) 0 else min start len);
          final = (if fin < 0 then max (len + fin) 0 else min fin len)
      in take (nat (final - k)) (drop (nat k) xs))"

text \<open>
  \<^verbatim>\<open>Promise.all(ids.map(id => new FireDoc({firestore, id, collectionPath}).load()))\<close>:
  every handle is constructed and its fetch is issued, in the order of the ids; the
  result is the list of loaded handles, or the error of the first load that fails.
\<close>

fun loadAll ::
  "maybeCallable \<Rightarrow> string list \<Rightarrow> 'a firestore \<Rightarrow> (error + 'a FireDoc list) \<times> 'a firestore" where
  "loadAll cp [] fs = (Inr [], fs)"
| "loadAll cp (i # is) fs =
     (case FireDoc_constructor fs
             \<lparr>opt_id = Some i, opt_docFields = None, opt_collectionPath = cp\<rparr> of
        (h, fs1) \<Rightarrow>
          (case load h fs1 of
             (r, fs2) \<Rightarrow>
               (case loadAll cp is fs2 of
                  (rs, fs3) \<Rightarrow>
                    ((case r of
                        Inl e \<Rightarrow> Inl e
                      | Inr h' \<Rightarrow> (case rs of Inl e \<Rightarrow> Inl e | Inr hs \<Rightarrow> Inr (h' # hs))),
                     fs3))))"

text \<open>
  What \<^verbatim>\<open>withRawFilter\<close> does after the loop, with the accumulated ids
  \<^verbatim>\<open>searchFoundItemIds\<close>: the number of pages, the slice of the requested page, and
  the load of every id of the slice.
\<close>

definition paginate ::
  "maybeCallable \<Rightarrow> 'a searchInput \<Rightarrow> string list \<Rightarrow> 'a firestore \<Rightarrow>
     (error + 'a searchResult) \<times> 'a firestore" where
  "paginate cp input searchFoundItemIds fs =
     (let allPgs = Math_ceil_div (length searchFoundItemIds) (perPage input);
          idsFilteredByPagination =
            slice searchFoundItemIds (perPage input * (page input - 1))
              (perPage input * page input)
      in case loadAll cp idsFilteredByPagination fs of
           (Inl e, fs') \<Rightarrow> (Inl e, fs')
         | (Inr ds, fs') \<Rightarrow> (Inr \<lparr>allPages = allPgs, docs = ds\<rparr>, fs'))"

definition withRawFilter ::
  "maybeCallable \<Rightarrow> 'a firestore \<Rightarrow> 'a searchInput \<Rightarrow> (error + 'a searchResult) \<times> 'a firestore" where
  "withRawFilter cp fs input =
     (case scanLoop fs (resolvePath cp) (filterFn input) 0 [] of
        (searchFoundItemIds, fs') \<Rightarrow> paginate cp input searchFoundItemIds fs')"

section \<open>Notions used to state the properties\<close>

text \<open>The field \<open>k\<close> of the remote document at \<open>path\<close>, if there is one.\<close>

definition remoteField :: "'a firestore \<Rightarrow> string \<Rightarrow> string \<Rightarrow> 'a jsvalue option" where
  "remoteField fs path k = (case documents fs path of None \<Rightarrow> None | Some d \<Rightarrow> d k)"

text \<open>
  The \<open>i\<close>-th scan window of a collection, the ids of its documents that pass the
  filter, and the queries of the scan pages \<open>p\<close> up to \<open>n\<close> (excluded).
\<close>

definition scanWindow :: "'a firestore \<Rightarrow> string \<Rightarrow> nat \<Rightarrow> (string \<times> 'a fields) list" where
  "scanWindow fs path i = take searchPerPage (drop (i * searchPerPage) (collections fs path))"

definition windowMatches ::
  "'a firestore \<Rightarrow> string \<Rightarrow> ('a fields \<Rightarrow> string \<Rightarrow> bool) \<Rightarrow> nat \<Rightarrow> string list" where
  "windowMatches fs path flt i = matchingIds flt (scanWindow fs path i)"

definition scanCalls :: "string \<Rightarrow> nat \<Rightarrow> nat \<Rightarrow> 'a call list" where
  "scanCalls path p n = map (\<lambda>i. QueryCall path (i * searchPerPage) searchPerPage) [p..<n]"

section \<open>Concrete stores and handles\<close>

text \<open>A conversion of a timestamp to milliseconds, for the examples.\<close>

definition toDateMillis :: "int \<Rightarrow> int \<Rightarrow> int" where
  "toDateMillis s n = s * 1000 + n div 1000000"

text \<open>A store with one document, \<^verbatim>\<open>users/u1\<close>, and three handles made by the constructor.\<close>

definition exampleStore :: "nat firestore" where
  "exampleStore =
     \<lparr>documents = [''users/u1'' \<mapsto> [''a'' \<mapsto> Other 0, ''b'' \<mapsto> Other 2]],
      collections = (\<lambda>p. if p = ''users'' then [(''u1'', [''a'' \<mapsto> Other 0, ''b'' \<mapsto> Other 2])] else []),
      autoIds = (\<lambda>n. replicate (Suc n) CHR ''z''),
      allocated = 0,
      calls = []\<rparr>"

definition exampleDoc :: "nat FireDoc" where
  "exampleDoc =
     fst (FireDoc_constructor exampleStore
       \<lparr>opt_id = Some ''u1'', opt_docFields = Some [''a'' \<mapsto> Other 1],
        opt_collectionPath = Literal ''users''\<rparr>)"

definition missingDoc :: "nat FireDoc" where
  "missingDoc =
     fst (FireDoc_constructor exampleStore
       \<lparr>opt_id = Some ''u404'', opt_docFields = None, opt_collectionPath = Literal ''users''\<rparr>)"

definition timedDoc :: "nat FireDoc" where
  "timedDoc =
     fst (FireDoc_constructor exampleStore
       \<lparr>opt_id = Some ''u2'',
        opt_docFields = Some [''created'' \<mapsto> Timestamp 1700000000 500000000],
        opt_collectionPath = Literal ''users''\<rparr>)"

text \<open>
  A collection \<^verbatim>\<open>items\<close> of 250 documents. Document \<open>k\<close> has the id \<open>itemId k\<close> and
  carries the field \<^verbatim>\<open>hit\<close>, which is 1 when \<open>k\<close> is one of \<open>hits\<close> and 0 otherwise;
  the filter \<open>isHit\<close> reads that field.
\<close>

definition itemId :: "nat \<Rightarrow> string" where
  "itemId k = replicate (Suc k) CHR ''x''"

definition itemData :: "nat list \<Rightarrow> nat \<Rightarrow> nat fields" where
  "itemData hits k = [''hit'' \<mapsto> Other (if k \<in> set hits then 1 else 0), ''n'' \<mapsto> Other k]"

definition itemsStore :: "nat list \<Rightarrow> nat firestore" where
  "itemsStore hits =
     \<lparr>documents = map_of (map (\<lambda>k. (''items/'' @ itemId k, itemData hits k)) [0..<250]),
      collections = (\<lambda>p. if p = ''items'' then map (\<lambda>k. (itemId k, itemData hits k)) [0..<250] else []),
      autoIds = (\<lambda>n. replicate (Suc n) CHR ''z''),
      allocated = 0,
      calls = []\<rparr>"

definition isHit :: "nat fields \<Rightarrow> string \<Rightarrow> bool" where
  "isHit d i = (d ''hit'' = Some (Other 1))"

text \<open>The handle \<^verbatim>\<open>withRawFilter\<close> returns for document \<open>k\<close> of that collection.\<close>

definition loadedItem :: "nat list \<Rightarrow> nat \<Rightarrow> nat FireDoc" where
  "loadedItem hits k =
     \<lparr>collectionPath = Literal ''items'', docRefId = itemId k, docFields = itemData hits k,
      docFieldKeysChanged = [], docRef = ''items/'' @ itemId k\<rparr>"

section \<open>Facts about the handle\<close>

lemma foldl_changed_keys:
  "foldl (\<lambda>acc key. case m key of Some v \<Rightarrow> acc(key \<mapsto> v) | None \<Rightarrow> acc) acc ks
     = acc ++ (m |` set ks)"
proof (induction ks arbitrary: acc)
  case Nil
  show ?case by simp
next
  case (Cons k ks)
  let ?f = "\<lambda>acc key. case m key of Some v \<Rightarrow> acc(key \<mapsto> v) | None \<Rightarrow> acc"
  have "foldl ?f acc (k # ks) = foldl ?f (?f acc k) ks"
    by simp
  also have "\<dots> = ?f acc k ++ (m |` set ks)"
    by (rule Cons.IH)
  also have "\<dots> = acc ++ (m |` set (k # ks))"
    by (auto simp: map_add_def restrict_map_def fun_eq_iff split: option.splits)
  finally show ?case .
qed

lemma payload_changed:
  "getDocDataForSaveOperation h True = docFields h |` set (docFieldKeysChanged h)"
  by (simp add: getDocDataForSaveOperation_def foldl_changed_keys)

lemma payload_all: "getDocDataForSaveOperation h False = docFields h"
  by (simp add: getDocDataForSaveOperation_def)

lemma exampleDoc_eq:
  "exampleDoc = \<lparr>collectionPath = Literal ''users'', docRefId = ''u1'',
     docFields = [''a'' \<mapsto> Other 1], docFieldKeysChanged = [], docRef = ''users/u1''\<rparr>"
  by (simp add: exampleDoc_def FireDoc_constructor_def truthy_def resolvePath_def)

lemma missingDoc_eq:
  "missingDoc = \<lparr>collectionPath = Literal ''users'', docRefId = ''u404'',
     docFields = Map.empty, docFieldKeysChanged = [], docRef = ''users/u404''\<rparr>"
  by (simp add: missingDoc_def FireDoc_constructor_def truthy_def resolvePath_def)

lemma timedDoc_eq:
  "timedDoc = \<lparr>collectionPath = Literal ''users'', docRefId = ''u2'',
     docFields = [''created'' \<mapsto> Timestamp 1700000000 500000000],
     docFieldKeysChanged = [], docRef = ''users/u2''\<rparr>"
  by (simp add: timedDoc_def FireDoc_constructor_def truthy_def resolvePath_def)

text \<open>A handle constructed with an id is bound to \<^verbatim>\<open>getDocumentPath()\<close>.\<close>

lemma constructor_docRef:
  "truthy (opt_id options) \<Longrightarrow>
     docRef (fst (FireDoc_constructor fs options)) = getDocumentPath (fst (FireDoc_constructor fs options))
     \<and> docRefId (fst (FireDoc_constructor fs options)) = the (opt_id options)
     \<and> docFieldKeysChanged (fst (FireDoc_constructor fs options)) = []
     \<and> snd (FireDoc_constructor fs options) = fs"
  by (simp add: FireDoc_constructor_def getDocumentPath_def getCollectionPath_def Let_def)

text \<open>
  Claim C6. \<^verbatim>\<open>getDocDataForSaveOperation(true)\<close> returns the fields restricted to the
  names that occur in the changed keys: its key set is the set of changed keys that are
  keys of the fields, each with its current value. The result is a map, so a key listed
  twice gives one entry, and removing the duplicates from the changed keys changes
  nothing. \<^verbatim>\<open>getDocDataForSaveOperation(false)\<close> returns a copy of all the fields.
\<close>

theorem getDocDataForSaveOperation_keys:
  "dom (getDocDataForSaveOperation h True) = set (docFieldKeysChanged h) \<inter> dom (docFields h)
   \<and> getDocDataForSaveOperation h True = docFields h |` set (docFieldKeysChanged h)
   \<and> getDocDataForSaveOperation (h\<lparr>docFieldKeysChanged := remdups (docFieldKeysChanged h)\<rparr>) True
       = getDocDataForSaveOperation h True
   \<and> getDocDataForSaveOperation h False = docFields h"
  by (auto simp: payload_changed payload_all)

text \<open>
  Claim C7. \<^verbatim>\<open>setField(name, undefined)\<close> stores the deletion marker
  \<^verbatim>\<open>FieldValue.delete()\<close> under the name, so the key stays and the save payload of either
  mode holds the marker for it; and \<^verbatim>\<open>setField\<close> appends the name to the changed keys
  whatever the value and whatever the keys already recorded.
\<close>

theorem setField_marks:
  "docFields (setField h name Undefined) name = Some FieldDelete
   \<and> getDocDataForSaveOperation (setField h name Undefined) onlyChanged name = Some FieldDelete
   \<and> docFields (setField h name v) name = Some (if v = Undefined then FieldDelete else v)
   \<and> docFieldKeysChanged (setField h name v) = docFieldKeysChanged h @ [name]"
  by (cases onlyChanged) (simp_all add: payload_changed payload_all setField_def)

text \<open>
  Claim C8, as stated: \<^verbatim>\<open>getField(k)\<close> after \<^verbatim>\<open>setField(k, v)\<close> returns \<open>v\<close> unless
  \<open>v\<close> is a timestamp. It fails for \<open>v = undefined\<close>, which is no timestamp: the
  deletion marker comes back.
\<close>

theorem getField_setField_undefined_counterexample:
  "getField toDateMillis (setField exampleDoc ''a'' Undefined) ''a'' = FieldDelete
   \<and> getField toDateMillis (setField exampleDoc ''a'' Undefined) ''a'' \<noteq> Undefined"
  by (simp add: getField_def setField_def)

text \<open>
  Claim C8, amended. \<^verbatim>\<open>getField(k)\<close> after \<^verbatim>\<open>setField(k, v)\<close> returns \<open>v\<close>, except that
  a timestamp comes back as its date and \<^verbatim>\<open>undefined\<close> comes back as the deletion
  marker.
\<close>

theorem getField_setField:
  "getField toDate (setField h k v) k =
     (case v of
        Timestamp s n \<Rightarrow> DateValue (toDate s n)
      | Undefined \<Rightarrow> FieldDelete
      | _ \<Rightarrow> v)"
  by (simp add: getField_def setField_def split: jsvalue.splits)

text \<open>
  Claim C9, as stated: no public read of the handle returns a native timestamp. It fails
  for the save payload, which carries the stored timestamp as it is, as does the result
  of \<^verbatim>\<open>getAllFields\<close>.
\<close>

theorem payload_keeps_timestamp_counterexample:
  "docFields timedDoc ''created'' = Some (Timestamp 1700000000 500000000)
   \<and> getDocDataForSaveOperation timedDoc False ''created''
       = Some (Timestamp 1700000000 500000000)
   \<and> getAllFields timedDoc ''created'' = Some (Timestamp 1700000000 500000000)"
  by (simp add: timedDoc_eq payload_all getAllFields_def)

text \<open>
  Claim C9, amended. \<^verbatim>\<open>getField\<close> never returns a native timestamp: a stored timestamp
  comes back as its date. The save payload carries the stored values unconverted, in
  both modes.
\<close>

theorem getField_converts_timestamp:
  "(docFields h k = Some (Timestamp s n) \<longrightarrow> getField toDate h k = DateValue (toDate s n))
   \<and> getField toDate h k \<noteq> Timestamp s' n'
   \<and> getDocDataForSaveOperation h False k = docFields h k
   \<and> (k \<in> set (docFieldKeysChanged h) \<longrightarrow> getDocDataForSaveOperation h True k = docFields h k)"
  by (auto simp: getField_def payload_all payload_changed split: option.splits jsvalue.splits)

theorem getField_converts_timestamp_witness:
  "docFields timedDoc ''created'' = Some (Timestamp 1700000000 500000000)
   \<and> getField toDateMillis timedDoc ''created'' = DateValue 1700000000500
   \<and> ''created'' \<in> set (docFieldKeysChanged (setField timedDoc ''created'' (Timestamp 5 0)))
   \<and> getDocDataForSaveOperation (setField timedDoc ''created'' (Timestamp 5 0)) True ''created''
       = Some (Timestamp 5 0)"
  using getField_converts_timestamp
          [of timedDoc "''created''" 1700000000 500000000 toDateMillis]
        getField_converts_timestamp
          [of "setField timedDoc ''created'' (Timestamp 5 0)" "''created''"]
  by (simp add: timedDoc_eq toDateMillis_def setField_def)

text \<open>
  Claim C10. Constructing a handle with the id \<^verbatim>\<open>''\<close> is constructing it without an id:
  the handle is not bound to the collection path followed by \<^verbatim>\<open>/\<close>, a fresh reference
  is allocated under the collection path and its generated id is adopted, in the
  constructor of \<^verbatim>\<open>FireDoc\<close> and in the one of \<^verbatim>\<open>Main\<close> alike, and the latter
  sets \<^verbatim>\<open>isNewDocument\<close>.
\<close>

theorem constructor_empty_id:
  "FireDoc_constructor fs (options\<lparr>opt_id := Some ''''\<rparr>)
     = FireDoc_constructor fs (options\<lparr>opt_id := None\<rparr>)
   \<and> Main_constructor fs (options\<lparr>opt_id := Some ''''\<rparr>)
     = Main_constructor fs (options\<lparr>opt_id := None\<rparr>)
   \<and> docRefId (fst (FireDoc_constructor fs (options\<lparr>opt_id := Some ''''\<rparr>)))
     = autoIds fs (allocated fs)
   \<and> docRef (fst (FireDoc_constructor fs (options\<lparr>opt_id := Some ''''\<rparr>)))
     = resolvePath (opt_collectionPath options) @ ''/'' @ autoIds fs (allocated fs)
   \<and> (autoIds fs (allocated fs) \<noteq> '''' \<longrightarrow>
        docRef (fst (FireDoc_constructor fs (options\<lparr>opt_id := Some ''''\<rparr>)))
          \<noteq> resolvePath (opt_collectionPath options) @ ''/'' @ '''')
   \<and> calls (snd (FireDoc_constructor fs (options\<lparr>opt_id := Some ''''\<rparr>)))
     = calls fs @ [DocCall (resolvePath (opt_collectionPath options))]
   \<and> allocated (snd (FireDoc_constructor fs (options\<lparr>opt_id := Some ''''\<rparr>)))
     = Suc (allocated fs)
   \<and> isNewDocument (fst (Main_constructor fs (options\<lparr>opt_id := Some ''''\<rparr>)))
   \<and> docRefId (fst (Main_constructor fs (options\<lparr>opt_id := Some ''''\<rparr>)))
     = autoIds fs (allocated fs)
   \<and> docRef (fst (Main_constructor fs (options\<lparr>opt_id := Some ''''\<rparr>)))
     = resolvePath (opt_collectionPath options) @ ''/'' @ autoIds fs (allocated fs)
   \<and> (autoIds fs (allocated fs) \<noteq> '''' \<longrightarrow>
        docRef (fst (Main_constructor fs (options\<lparr>opt_id := Some ''''\<rparr>)))
          \<noteq> resolvePath (opt_collectionPath options) @ ''/'' @ '''')
   \<and> calls (snd (Main_constructor fs (options\<lparr>opt_id := Some ''''\<rparr>)))
     = calls fs @ [DocCall (resolvePath (opt_collectionPath options))]
   \<and> allocated (snd (Main_constructor fs (options\<lparr>opt_id := Some ''''\<rparr>)))
     = Suc (allocated fs)"
  by (simp add: FireDoc_constructor_def Main_constructor_def truthy_def collection_doc_def Let_def)

theorem constructor_empty_id_witness:
  "autoIds exampleStore (allocated exampleStore) = ''z''
   \<and> FireDoc_constructor exampleStore
        \<lparr>opt_id = Some '''', opt_docFields = None, opt_collectionPath = Literal ''users''\<rparr>
     = (\<lparr>collectionPath = Literal ''users'', docRefId = ''z'', docFields = Map.empty,
         docFieldKeysChanged = [], docRef = ''users/z''\<rparr>,
        exampleStore\<lparr>allocated := 1, calls := [DocCall ''users'']\<rparr>)
   \<and> ''users/z'' \<noteq> ''users/''
   \<and> isNewDocument (fst (Main_constructor exampleStore
        \<lparr>opt_id = Some '''', opt_docFields = None, opt_collectionPath = Literal ''users''\<rparr>))
   \<and> Main_constructor exampleStore
        \<lparr>opt_id = Some '''', opt_docFields = None, opt_collectionPath = Literal ''users''\<rparr>
     = (\<lparr>collectionPath = Literal ''users'', docRefId = ''z'', docFields = Map.empty,
         docFieldKeysChanged = [], docRef = ''users/z'', isNewDocument = True\<rparr>,
        exampleStore\<lparr>allocated := 1, calls := [DocCall ''users'']\<rparr>)
   \<and> docRef (fst (Main_constructor exampleStore
        \<lparr>opt_id = Some '''', opt_docFields = None, opt_collectionPath = Literal ''users''\<rparr>))
     \<noteq> ''users/''
   \<and> calls (snd (Main_constructor exampleStore
        \<lparr>opt_id = Some '''', opt_docFields = None, opt_collectionPath = Literal ''users''\<rparr>))
     = [DocCall ''users'']"
  using constructor_empty_id [of exampleStore
      "\<lparr>opt_id = None, opt_docFields = None, opt_collectionPath = Literal ''users''\<rparr>"]
  by (simp add: FireDoc_constructor_def Main_constructor_def truthy_def collection_doc_def
      Let_def resolvePath_def exampleStore_def)

text \<open>
  Claim C4. \<^verbatim>\<open>load\<close> fails exactly when the store has no document at the handle's
  location, and then with the string that carries the handle's id; when the document
  exists, the result is the handle itself with its fields replaced by the fetched data
  and its changed keys cleared.
\<close>

theorem load_not_found_iff:
  "(fst (load h fs) = Inl (Thrown (''Document '' @ docRefId h @ '' does not exist'')))
      = (documents fs (docRef h) = None)
   \<and> isl (fst (load h fs)) = (documents fs (docRef h) = None)
   \<and> (\<forall>d. documents fs (docRef h) = Some d \<longrightarrow>
         fst (load h fs) = Inr (h\<lparr>docFields := d, docFieldKeysChanged := []\<rparr>))"
  by (cases "documents fs (docRef h)")
     (simp_all add: load_def docRef_get_def resetDocFieldKeysChanged_def)

theorem load_not_found_iff_witness:
  "documents exampleStore (docRef missingDoc) = None
   \<and> fst (load missingDoc exampleStore) = Inl (Thrown ''Document u404 does not exist'')
   \<and> documents exampleStore (docRef exampleDoc) = Some [''a'' \<mapsto> Other 0, ''b'' \<mapsto> Other 2]
   \<and> fst (load (setField exampleDoc ''c'' (Other 7)) exampleStore)
       = Inr (exampleDoc\<lparr>docFields := [''a'' \<mapsto> Other 0, ''b'' \<mapsto> Other 2]\<rparr>)"
  using load_not_found_iff [of missingDoc exampleStore]
    load_not_found_iff [of "setField exampleDoc ''c'' (Other 7)" exampleStore]
  by (simp add: exampleDoc_eq missingDoc_eq exampleStore_def setField_def)

text \<open>
  Claim C5. \<^verbatim>\<open>save\<close> clears the changed keys in every mode, also when it writes
  nothing; the handle is otherwise unchanged. With an empty payload the store is left as
  it was, no call made; with a non-empty payload exactly one write call is made, for the
  handle's location and with the payload of \<^verbatim>\<open>getDocDataForSaveOperation\<close>.
\<close>

theorem save_clears_and_writes_iff_nonempty:
  "docFieldKeysChanged (fst (snd (save option h fs))) = []
   \<and> fst (snd (save option h fs)) = h\<lparr>docFieldKeysChanged := []\<rparr>
   \<and> (if getDocDataForSaveOperation h (onlyChangesOf option) = Map.empty
      then snd (snd (save option h fs)) = fs
      else calls (snd (snd (save option h fs)))
             = calls fs @ [SetCall (docRef h) (getDocDataForSaveOperation h (onlyChangesOf option))
                             (onlyChangesOf option)])"
  by (simp add: save_def Let_def docRef_set_def resetDocFieldKeysChanged_def split: prod.splits)

theorem save_clears_and_writes_iff_nonempty_witness:
  "getDocDataForSaveOperation exampleDoc (onlyChangesOf Changes) = Map.empty
   \<and> save Changes exampleDoc exampleStore = (None, exampleDoc, exampleStore)
   \<and> docFieldKeysChanged (setField exampleDoc ''a'' (Other 5)) = [''a'']
   \<and> docFieldKeysChanged (fst (snd (save Changes (setField exampleDoc ''a'' (Other 5)) exampleStore)))
       = []
   \<and> calls (snd (snd (save Changes (setField exampleDoc ''a'' (Other 5)) exampleStore)))
       = [SetCall ''users/u1'' [''a'' \<mapsto> Other 5] True]"
proof -
  let ?h = "setField exampleDoc ''a'' (Other 5)"
  have e: "getDocDataForSaveOperation exampleDoc (onlyChangesOf Changes) = Map.empty"
    by (simp add: onlyChangesOf_def payload_changed exampleDoc_eq)
  have p: "getDocDataForSaveOperation ?h (onlyChangesOf Changes) = [''a'' \<mapsto> Other 5]"
    by (simp add: onlyChangesOf_def payload_changed exampleDoc_eq setField_def
        restrict_map_def fun_eq_iff)
  have k: "docFieldKeysChanged ?h = [''a'']" "docRef ?h = ''users/u1''"
    "exampleDoc\<lparr>docFieldKeysChanged := []\<rparr> = exampleDoc" "calls exampleStore = []"
    by (simp_all add: exampleDoc_eq setField_def exampleStore_def)
  have "save Changes exampleDoc exampleStore = (None, exampleDoc, exampleStore)"
    using save_clears_and_writes_iff_nonempty [of Changes exampleDoc exampleStore] e k
    by (simp add: save_def Let_def prod_eq_iff)
  moreover have "docFieldKeysChanged (fst (snd (save Changes ?h exampleStore))) = []"
    and "calls (snd (snd (save Changes ?h exampleStore)))
           = [SetCall ''users/u1'' [''a'' \<mapsto> Other 5] True]"
    using save_clears_and_writes_iff_nonempty [of Changes ?h exampleStore] p k
    by (simp_all add: onlyChangesOf_def)
  ultimately show ?thesis
    using e k by simp
qed

text \<open>
  Claim C3, as stated: in every mode the write of \<^verbatim>\<open>save\<close> leaves the remote fields
  that are not in the payload unchanged. It fails for \<^verbatim>\<open>save('overwrite')\<close> of
  \<^verbatim>\<open>FireDoc.ts\<close>, which writes with \<^verbatim>\<open>{merge: false}\<close>: the remote field \<^verbatim>\<open>b\<close>, not in
  the payload, is gone after the save.
\<close>

theorem save_overwrite_counterexample:
  "getDocDataForSaveOperation exampleDoc (onlyChangesOf Overwrite) = [''a'' \<mapsto> Other 1]
   \<and> remoteField exampleStore (docRef exampleDoc) ''b'' = Some (Other 2)
   \<and> remoteField (snd (snd (save Overwrite exampleDoc exampleStore))) (docRef exampleDoc) ''b''
       = None"
  by (simp add: save_def Let_def docRef_set_def resetDocFieldKeysChanged_def remoteField_def
      payload_all onlyChangesOf_def exampleDoc_eq exampleStore_def ran_def)

text \<open>
  Claim C3, amended. When the payload is not empty: in the modes that save the changes
  only (\<^verbatim>\<open>'changes'\<close>, the default, and \<^verbatim>\<open>true\<close>) the write of \<^verbatim>\<open>save\<close> is a merge-write,
  every remote field that is not in the payload is left unchanged; in the modes that
  save all the fields (\<^verbatim>\<open>'overwrite'\<close> and \<^verbatim>\<open>false\<close>) the write is made with
  \<^verbatim>\<open>{merge: false}\<close> and, when the store accepts it, the remote document is the payload
  and nothing else. The \<^verbatim>\<open>save\<close> of the single-file variant is a merge-write in every
  mode.
\<close>

theorem save_merge_frame:
  "getDocDataForSaveOperation h (onlyChangesOf option) \<noteq> Map.empty \<Longrightarrow>
   (onlyChangesOf option \<longrightarrow>
      (\<forall>k. k \<notin> dom (getDocDataForSaveOperation h (onlyChangesOf option)) \<longrightarrow>
         remoteField (snd (snd (save option h fs))) (docRef h) k = remoteField fs (docRef h) k))
   \<and> (\<not> onlyChangesOf option \<longrightarrow>
        calls (snd (snd (save option h fs))) = calls fs @ [SetCall (docRef h) (docFields h) False]
        \<and> (FieldDelete \<notin> ran (docFields h) \<longrightarrow>
             documents (snd (snd (save option h fs))) (docRef h) = Some (docFields h)))
   \<and> (\<forall>k. k \<notin> dom (getDocDataForSaveOperation h (onlyChangesOf option)) \<longrightarrow>
         remoteField (snd (snd (Main_save option h fs))) (docRef h) k = remoteField fs (docRef h) k)"
  by (auto simp: save_def Main_save_def Let_def docRef_set_def remoteField_def mergeFields_def
      payload_all split: option.splits)

theorem save_merge_frame_witness:
  "getDocDataForSaveOperation (setField exampleDoc ''a'' (Other 5)) (onlyChangesOf Changes)
     = [''a'' \<mapsto> Other 5]
   \<and> remoteField exampleStore ''users/u1'' ''b'' = Some (Other 2)
   \<and> remoteField (snd (snd (save Changes (setField exampleDoc ''a'' (Other 5)) exampleStore)))
       ''users/u1'' ''b'' = Some (Other 2)
   \<and> remoteField (snd (snd (Main_save Overwrite (setField exampleDoc ''a'' (Other 5)) exampleStore)))
       ''users/u1'' ''b'' = Some (Other 2)
   \<and> documents (snd (snd (save Overwrite (setField exampleDoc ''a'' (Other 5)) exampleStore)))
       ''users/u1'' = Some [''a'' \<mapsto> Other 5]"
proof -
  let ?h = "setField exampleDoc ''a'' (Other 5)"
  have p: "getDocDataForSaveOperation ?h True = [''a'' \<mapsto> Other 5]"
    by (simp add: payload_changed exampleDoc_eq setField_def restrict_map_def fun_eq_iff)
  have q: "getDocDataForSaveOperation ?h False = [''a'' \<mapsto> Other 5]"
    by (simp add: payload_all exampleDoc_eq setField_def)
  have r: "docRef ?h = ''users/u1''" "docFields ?h = [''a'' \<mapsto> Other 5]"
    by (simp_all add: exampleDoc_eq setField_def)
  have b: "remoteField exampleStore ''users/u1'' ''b'' = Some (Other 2)"
    by (simp add: remoteField_def exampleStore_def)
  have nd: "FieldDelete \<notin> ran [''a'' \<mapsto> (Other 5 :: nat jsvalue)]"
    by simp
  from save_merge_frame [of ?h Changes exampleStore] p r b
  have 1: "remoteField (snd (snd (save Changes ?h exampleStore))) ''users/u1'' ''b'' = Some (Other 2)"
    by (simp add: onlyChangesOf_def)
  from save_merge_frame [of ?h Overwrite exampleStore] q r b nd
  have 2: "remoteField (snd (snd (Main_save Overwrite ?h exampleStore))) ''users/u1'' ''b''
             = Some (Other 2)"
    and 3: "documents (snd (snd (save Overwrite ?h exampleStore))) ''users/u1''
             = Some [''a'' \<mapsto> Other 5]"
    by (simp_all add: onlyChangesOf_def)
  from p b 1 2 3 show ?thesis
    by (simp add: onlyChangesOf_def)
qed


section \<open>Facts about the scan and the pagination\<close>

lemma windowMatches_calls [simp]:
  "windowMatches (fs\<lparr>calls := cs\<rparr>) = windowMatches fs"
  by (simp add: windowMatches_def scanWindow_def fun_eq_iff)

text \<open>One turn of the loop.\<close>

lemma scanLoop_step:
  "scanLoop fs path flt p found =
     (if windowMatches fs path flt p = []
      then (found, fs\<lparr>calls := calls fs @ [QueryCall path (p * searchPerPage) searchPerPage]\<rparr>)
      else scanLoop (fs\<lparr>calls := calls fs @ [QueryCall path (p * searchPerPage) searchPerPage]\<rparr>)
             path flt (Suc p) (found @ windowMatches fs path flt p))"
  by (subst scanLoop.simps)
     (simp add: query_get_def windowMatches_def scanWindow_def Let_def)

text \<open>
  The loop from page \<open>p\<close>, when \<open>n\<close> is the first page from \<open>p\<close> on whose window has no
  match: it gathers the matches of the pages \<open>p\<close> to \<open>n - 1\<close> and queries the pages \<open>p\<close>
  to \<open>n\<close>.
\<close>

lemma scanLoop_run:
  assumes "windowMatches fs path flt n = []"
    and "\<forall>i. p \<le> i \<and> i < n \<longrightarrow> windowMatches fs path flt i \<noteq> []"
    and "p \<le> n"
  shows "scanLoop fs path flt p found =
           (found @ concat (map (windowMatches fs path flt) [p..<n]),
            fs\<lparr>calls := calls fs @ scanCalls path p (Suc n)\<rparr>)"
  using assms
proof (induction "n - p" arbitrary: p found fs)
  case 0
  then have "p = n" by simp
  with 0 show ?case
    by (subst scanLoop_step) (simp add: scanCalls_def)
next
  case (Suc d)
  then have lt: "p < n" by simp
  with Suc.prems have ne: "windowMatches fs path flt p \<noteq> []" by simp
  let ?fs = "fs\<lparr>calls := calls fs @ [QueryCall path (p * searchPerPage) searchPerPage]\<rparr>"
  have "scanLoop ?fs path flt (Suc p) (found @ windowMatches fs path flt p) =
          ((found @ windowMatches fs path flt p) @ concat (map (windowMatches ?fs path flt) [Suc p..<n]),
           ?fs\<lparr>calls := calls ?fs @ scanCalls path (Suc p) (Suc n)\<rparr>)"
  proof (rule Suc.hyps(1))
    show "d = n - Suc p" using Suc.hyps(2) by simp
    show "windowMatches ?fs path flt n = []" using Suc.prems(1) by simp
    show "\<forall>i. Suc p \<le> i \<and> i < n \<longrightarrow> windowMatches ?fs path flt i \<noteq> []"
      using Suc.prems(2) by simp
    show "Suc p \<le> n" using lt by simp
  qed
  moreover have "[p..<n] = p # [Suc p..<n]" "[p..<Suc n] = p # [Suc p..<Suc n]"
    using lt by (simp_all add: upt_conv_Cons)
  ultimately show ?case
    using ne by (subst scanLoop_step) (simp add: scanCalls_def)
qed

text \<open>Every scan has a first window without a match: a window past the end is empty.\<close>

lemma first_zero_window_exists:
  "\<exists>n. windowMatches fs path flt n = [] \<and> (\<forall>i<n. windowMatches fs path flt i \<noteq> [])"
proof -
  have "windowMatches fs path flt (length (collections fs path)) = []"
    by (simp add: windowMatches_def scanWindow_def matchingIds_def searchPerPage_def)
  then have ex: "\<exists>n. windowMatches fs path flt n = []" ..
  define n where "n = (LEAST n. windowMatches fs path flt n = [])"
  have "windowMatches fs path flt n = []"
    unfolding n_def using ex by (rule LeastI_ex)
  moreover have "\<forall>i<n. windowMatches fs path flt i \<noteq> []"
    unfolding n_def using not_less_Least by blast
  ultimately show ?thesis by blast
qed

lemma slice_subset: "set (slice xs a b) \<subseteq> set xs"
proof -
  have "set (take m (drop k xs)) \<subseteq> set xs" for m k
    using set_take_subset [of m "drop k xs"] set_drop_subset [of k xs] by blast
  then show ?thesis
    by (simp add: slice_def Let_def)
qed

text \<open>For a positive page size and a page counted from 1, \<open>slice\<close> cuts out the page.\<close>

lemma slice_page:
  assumes "0 < pp" and "1 \<le> pg"
  shows "slice xs (pp * (pg - 1)) (pp * pg) = take (nat pp) (drop (nat (pp * (pg - 1))) xs)"
proof -
  let ?s = "pp * (pg - 1)"
  have s0: "0 \<le> ?s" using assms by simp
  have e: "pp * pg = ?s + pp" by (simp add: algebra_simps)
  have e0: "\<not> pp * pg < 0" using s0 assms e by linarith
  show ?thesis
  proof (cases "?s < int (length xs)")
    case True
    then have k: "min ?s (int (length xs)) = ?s" by simp
    have "take (nat (min (pp * pg) (int (length xs)) - ?s)) (drop (nat ?s) xs)
            = take (nat pp) (drop (nat ?s) xs)"
    proof (cases "pp * pg \<le> int (length xs)")
      case True
      then show ?thesis using e by simp
    next
      case False
      then have "min (pp * pg) (int (length xs)) = int (length xs)" by simp
      moreover have "length (drop (nat ?s) xs) \<le> nat pp"
        using False e s0 by simp
      moreover have "length (drop (nat ?s) xs) \<le> nat (int (length xs) - ?s)"
        using s0 by simp
      ultimately show ?thesis by simp
    qed
    with k s0 e0 show ?thesis
      by (simp add: slice_def Let_def)
  next
    case False
    then have "min ?s (int (length xs)) = int (length xs)" by simp
    moreover have "length xs \<le> nat ?s" using False by linarith
    ultimately show ?thesis
      using s0 e0 by (simp add: slice_def Let_def)
  qed
qed

lemma Math_ceil_div_nonzero:
  "d \<noteq> 0 \<Longrightarrow> Math_ceil_div n d = Finite \<lceil>real n / real_of_int d\<rceil>"
  using ceiling_divide_eq_div [of "int n" d, where ?'a = real]
  by (simp add: Math_ceil_div_def)

text \<open>The handles that \<open>loadAll\<close> returns carry the ids they were made from.\<close>

lemma loadAll_ids:
  "loadAll cp ids fs = (Inr hs, fs') \<Longrightarrow> [] \<notin> set ids \<Longrightarrow> map docRefId hs = ids"
proof (induction ids arbitrary: fs hs fs')
  case Nil
  then show ?case by simp
next
  case (Cons i ids)
  from Cons.prems(2) have i: "i \<noteq> []" and rest: "[] \<notin> set ids" by auto
  obtain h fs1 where c: "FireDoc_constructor fs
      \<lparr>opt_id = Some i, opt_docFields = None, opt_collectionPath = cp\<rparr> = (h, fs1)"
    by (cases "FireDoc_constructor fs
      \<lparr>opt_id = Some i, opt_docFields = None, opt_collectionPath = cp\<rparr>")
  with i have hid: "docRefId h = i"
    by (auto simp: FireDoc_constructor_def truthy_def)
  obtain r fs2 where l: "load h fs1 = (r, fs2)" by (cases "load h fs1")
  obtain rs fs3 where a: "loadAll cp ids fs2 = (rs, fs3)" by (cases "loadAll cp ids fs2")
  from Cons.prems(1) c l a obtain h' hs' where
    r: "r = Inr h'" and rs: "rs = Inr hs'" and hs: "hs = h' # hs'"
    by (auto split: sum.splits)
  from l r hid have "docRefId h' = i"
    by (auto simp: load_def docRef_get_def resetDocFieldKeysChanged_def split: option.splits)
  moreover from a rs rest have "map docRefId hs' = ids"
    by (auto dest: Cons.IH)
  ultimately show ?case using hs by simp
qed

subsection \<open>The collection of 250 items\<close>

lemma items_matches:
  "matchingIds isHit (map (\<lambda>k. (itemId k, itemData hits k)) ks)
     = map itemId (filter (\<lambda>k. k \<in> set hits) ks)"
  by (induction ks) (simp_all add: matchingIds_def isHit_def itemData_def)

lemma items_scanWindow:
  "scanWindow (itemsStore hits) ''items'' 0 = map (\<lambda>k. (itemId k, itemData hits k)) [0..<100]"
  "scanWindow (itemsStore hits) ''items'' 1 = map (\<lambda>k. (itemId k, itemData hits k)) [100..<200]"
  "scanWindow (itemsStore hits) ''items'' 2 = map (\<lambda>k. (itemId k, itemData hits k)) [200..<250]"
  by (simp_all add: scanWindow_def itemsStore_def searchPerPage_def take_map drop_map)

lemma items_window:
  "windowMatches (itemsStore hits) ''items'' isHit 0
     = map itemId (filter (\<lambda>k. k \<in> set hits) [0..<100])"
  "windowMatches (itemsStore hits) ''items'' isHit 1
     = map itemId (filter (\<lambda>k. k \<in> set hits) [100..<200])"
  "windowMatches (itemsStore hits) ''items'' isHit 2
     = map itemId (filter (\<lambda>k. k \<in> set hits) [200..<250])"
  by (simp_all only: windowMatches_def items_scanWindow items_matches)

lemma items_document:
  assumes "k < 250"
  shows "documents (itemsStore hits) (''items/'' @ itemId k) = Some (itemData hits k)"
proof -
  have "k \<in> set ks \<Longrightarrow>
      map_of (map (\<lambda>k. (''items/'' @ itemId k, itemData hits k)) ks) (''items/'' @ itemId k)
        = Some (itemData hits k)" for ks
  proof (induction ks)
    case Nil
    then show ?case by simp
  next
    case (Cons j ks)
    have "itemId j = itemId k \<longleftrightarrow> j = k"
      by (auto simp: itemId_def dest: arg_cong [where f = length])
    with Cons show ?case by auto
  qed
  with assms show ?thesis by (simp add: itemsStore_def)
qed

lemma items_loadAll:
  assumes "\<forall>k \<in> set ks. k < 250" and "documents fs = documents (itemsStore hits)"
  shows "loadAll (Literal ''items'') (map itemId ks) fs
           = (Inr (map (loadedItem hits) ks),
              fs\<lparr>calls := calls fs @ map (\<lambda>k. GetCall (''items/'' @ itemId k)) ks\<rparr>)"
  using assms
proof (induction ks arbitrary: fs)
  case Nil
  then show ?case by simp
next
  case (Cons k ks)
  let ?fs = "fs\<lparr>calls := calls fs @ [GetCall (''items/'' @ itemId k)]\<rparr>"
  from Cons.prems have "k < 250" by simp
  from items_document [OF this, of hits] Cons.prems(2)
  have d: "documents fs (''items/'' @ itemId k) = Some (itemData hits k)"
    by simp
  have c: "FireDoc_constructor fs
      \<lparr>opt_id = Some (itemId k), opt_docFields = None, opt_collectionPath = Literal ''items''\<rparr>
      = (\<lparr>collectionPath = Literal ''items'', docRefId = itemId k, docFields = Map.empty,
          docFieldKeysChanged = [], docRef = ''items/'' @ itemId k\<rparr>, fs)"
    by (simp add: FireDoc_constructor_def truthy_def resolvePath_def itemId_def)
  have l: "load \<lparr>collectionPath = Literal ''items'', docRefId = itemId k, docFields = Map.empty,
          docFieldKeysChanged = [], docRef = ''items/'' @ itemId k\<rparr> fs
      = (Inr (loadedItem hits k), ?fs)"
    using d by (simp add: load_def docRef_get_def resetDocFieldKeysChanged_def loadedItem_def)
  have "loadAll (Literal ''items'') (map itemId ks) ?fs
          = (Inr (map (loadedItem hits) ks),
             ?fs\<lparr>calls := calls ?fs @ map (\<lambda>k. GetCall (''items/'' @ itemId k)) ks\<rparr>)"
    using Cons.prems by (intro Cons.IH) simp_all
  with c l show ?case by simp
qed

lemma items_filters:
  "filter (\<lambda>k. k \<in> set [5, 230 :: nat]) [0..<100] = [5]"
  "filter (\<lambda>k. k \<in> set [5, 230 :: nat]) [100..<200] = []"
  "filter (\<lambda>k. k \<in> set [5, 230 :: nat]) [200..<250] = [230]"
  "filter (\<lambda>k. k \<in> set [3, 10, 20, 40, 99 :: nat]) [0..<100] = [3, 10, 20, 40, 99]"
  "filter (\<lambda>k. k \<in> set [3, 10, 20, 40, 99 :: nat]) [100..<200] = []"
  "filter (\<lambda>k. k \<in> set [120 :: nat]) [0..<100] = []"
  "filter (\<lambda>k. k \<in> set [120 :: nat]) [100..<200] = [120]"
  by code_simp+

lemma paginate_eq:
  assumes "Math_ceil_div (length M) (perPage input) = a"
    and "slice M (perPage input * (page input - 1)) (perPage input * page input) = sel"
  shows "paginate cp input M fs =
           (case loadAll cp sel fs of
              (Inl e, fs') \<Rightarrow> (Inl e, fs')
            | (Inr ds, fs') \<Rightarrow> (Inr \<lparr>allPages = a, docs = ds\<rparr>, fs'))"
  unfolding paginate_def Let_def assms ..

subsection \<open>The scan\<close>

text \<open>
  Claim C1. Let \<open>n\<close> be the first scan page whose window of 100 documents has no match
  (the window may hold documents, and later windows may hold matches). Then the loop
  stops there: it has queried the pages 0 to \<open>n\<close> and no other, the accumulated list is
  the matches of the windows before \<open>n\<close>, in order, and the result of \<^verbatim>\<open>withRawFilter\<close>
  is computed from that list alone, so the returned handles carry ids of that list.
\<close>

theorem scan_stops_at_first_zero_match_window:
  assumes "windowMatches fs (resolvePath cp) (filterFn input) n = []"
    and "\<forall>i<n. windowMatches fs (resolvePath cp) (filterFn input) i \<noteq> []"
  shows "scanLoop fs (resolvePath cp) (filterFn input) 0 [] =
           (concat (map (windowMatches fs (resolvePath cp) (filterFn input)) [0..<n]),
            fs\<lparr>calls := calls fs @ scanCalls (resolvePath cp) 0 (Suc n)\<rparr>)
     \<and> withRawFilter cp fs input =
           paginate cp input
             (concat (map (windowMatches fs (resolvePath cp) (filterFn input)) [0..<n]))
             (fs\<lparr>calls := calls fs @ scanCalls (resolvePath cp) 0 (Suc n)\<rparr>)
     \<and> (\<forall>r fs'. withRawFilter cp fs input = (Inr r, fs')
            \<and> [] \<notin> set (concat (map (windowMatches fs (resolvePath cp) (filterFn input)) [0..<n]))
          \<longrightarrow> set (map docRefId (docs r))
                \<subseteq> set (concat (map (windowMatches fs (resolvePath cp) (filterFn input)) [0..<n])))"
proof -
  let ?M = "concat (map (windowMatches fs (resolvePath cp) (filterFn input)) [0..<n])"
  let ?fs = "fs\<lparr>calls := calls fs @ scanCalls (resolvePath cp) 0 (Suc n)\<rparr>"
  have run: "scanLoop fs (resolvePath cp) (filterFn input) 0 [] = (?M, ?fs)"
    using scanLoop_run [of fs "resolvePath cp" "filterFn input" n 0 "[]"] assms by simp
  then have res: "withRawFilter cp fs input = paginate cp input ?M ?fs"
    by (simp add: withRawFilter_def)
  have "set (map docRefId (docs r)) \<subseteq> set ?M"
    if w: "withRawFilter cp fs input = (Inr r, fs')" and ne: "[] \<notin> set ?M" for r fs'
  proof -
    let ?sel = "slice ?M (perPage input * (page input - 1)) (perPage input * page input)"
    from w res obtain ds where l: "loadAll cp ?sel ?fs = (Inr ds, fs')" and r: "docs r = ds"
      by (auto simp: paginate_def Let_def split: prod.splits sum.splits)
    have sub: "set ?sel \<subseteq> set ?M" by (rule slice_subset)
    with ne have "[] \<notin> set ?sel" by blast
    with l have "map docRefId ds = ?sel" by (rule loadAll_ids)
    with r sub show ?thesis by simp
  qed
  with run res show ?thesis by blast
qed

theorem scan_stops_at_first_zero_match_window_witness:
  "length (scanWindow (itemsStore [5, 230]) ''items'' 1) = 100
   \<and> windowMatches (itemsStore [5, 230]) ''items'' isHit 1 = []
   \<and> windowMatches (itemsStore [5, 230]) ''items'' isHit 2 = [itemId 230]
   \<and> scanLoop (itemsStore [5, 230]) ''items'' isHit 0 [] =
       ([itemId 5],
        (itemsStore [5, 230])\<lparr>calls := [QueryCall ''items'' 0 100, QueryCall ''items'' 100 100]\<rparr>)
   \<and> fst (withRawFilter (Literal ''items'') (itemsStore [5, 230])
            \<lparr>page = 1, perPage = 10, filterFn = isHit\<rparr>)
       = Inr \<lparr>allPages = Finite 1, docs = [loadedItem [5, 230] 5]\<rparr>"
proof -
  let ?S = "itemsStore [5, 230]"
  let ?input = "\<lparr>page = 1, perPage = 10, filterFn = isHit\<rparr> :: nat searchInput"
  have w0: "windowMatches ?S ''items'' isHit 0 = [itemId 5]"
    and w1: "windowMatches ?S ''items'' isHit 1 = []"
    and w2: "windowMatches ?S ''items'' isHit 2 = [itemId 230]"
    by (simp_all only: items_window items_filters list.map)
  have len: "length (scanWindow ?S ''items'' 1) = 100"
    by (simp only: items_scanWindow length_map length_upt)
  have p: "resolvePath (Literal ''items'') = ''items''" "filterFn ?input = isHit"
    by (simp_all add: resolvePath_def)
  have c: "calls ?S = []"
    by (simp add: itemsStore_def)
  have "windowMatches ?S (resolvePath (Literal ''items'')) (filterFn ?input) 1 = []"
    using w1 p by simp
  moreover have "\<forall>i<1. windowMatches ?S (resolvePath (Literal ''items'')) (filterFn ?input) i \<noteq> []"
    using w0 p by simp
  ultimately have t: "scanLoop ?S ''items'' isHit 0 [] =
        ([itemId 5], ?S\<lparr>calls := [QueryCall ''items'' 0 100, QueryCall ''items'' 100 100]\<rparr>)"
    and u: "withRawFilter (Literal ''items'') ?S ?input =
        paginate (Literal ''items'') ?input [itemId 5]
          (?S\<lparr>calls := [QueryCall ''items'' 0 100, QueryCall ''items'' 100 100]\<rparr>)"
    using scan_stops_at_first_zero_match_window [of ?S "Literal ''items''" ?input 1] w0 p c
    by (simp_all add: scanCalls_def searchPerPage_def)
  have "loadAll (Literal ''items'') (map itemId [5])
          (?S\<lparr>calls := [QueryCall ''items'' 0 100, QueryCall ''items'' 100 100]\<rparr>)
        = (Inr (map (loadedItem [5, 230]) [5]),
           ?S\<lparr>calls := [QueryCall ''items'' 0 100, QueryCall ''items'' 100 100]
                  @ map (\<lambda>k. GetCall (''items/'' @ itemId k)) [5]\<rparr>)"
    using items_loadAll [of "[5]" "?S\<lparr>calls := [QueryCall ''items'' 0 100, QueryCall ''items'' 100 100]\<rparr>"
        "[5, 230]"]
    by simp
  then have "fst (paginate (Literal ''items'') ?input [itemId 5]
          (?S\<lparr>calls := [QueryCall ''items'' 0 100, QueryCall ''items'' 100 100]\<rparr>))
        = Inr \<lparr>allPages = Finite 1, docs = [loadedItem [5, 230] 5]\<rparr>"
    by (simp add: paginate_def Let_def Math_ceil_div_def slice_def)
  with u have "fst (withRawFilter (Literal ''items'') ?S ?input)
        = Inr \<lparr>allPages = Finite 1, docs = [loadedItem [5, 230] 5]\<rparr>"
    by simp
  with len w1 w2 t show ?thesis
    by simp
qed

subsection \<open>The pagination\<close>

text \<open>
  Claim C2. When the scan has accumulated the list \<open>M\<close>, the page size is positive and
  the page is counted from 1, \<^verbatim>\<open>withRawFilter\<close> returns the ceiling of the length of \<open>M\<close>
  over the page size as \<^verbatim>\<open>allPages\<close>, and as \<^verbatim>\<open>docs\<close> the handles constructed from and
  loaded for the ids of the slice of \<open>M\<close> from \<open>(page - 1) * perPage\<close> up to
  \<open>page * perPage\<close>, in that order. In particular: with five matches in the first window
  and none in the second, page size 2 and page 2, \<^verbatim>\<open>allPages\<close> is 3 and the handles are
  those of the matches at the indices 2 and 3; and with no match in the first window the
  result is \<^verbatim>\<open>{allPages: 0, docs: []}\<close> after the single query of the first window.
\<close>

theorem withRawFilter_pagination:
  "(\<forall>M fs1. scanLoop fs (resolvePath cp) (filterFn input) 0 [] = (M, fs1)
        \<and> 0 < perPage input \<and> 1 \<le> page input \<longrightarrow>
      withRawFilter cp fs input =
        (case loadAll cp (take (nat (perPage input))
                            (drop (nat (perPage input * (page input - 1))) M)) fs1 of
           (Inl e, fs') \<Rightarrow> (Inl e, fs')
         | (Inr ds, fs') \<Rightarrow>
             (Inr \<lparr>allPages = Finite \<lceil>real (length M) / real_of_int (perPage input)\<rceil>,
                   docs = ds\<rparr>, fs')))
   \<and> (\<forall>m0 m1 m2 m3 m4.
        windowMatches fs (resolvePath cp) (filterFn input) 0 = [m0, m1, m2, m3, m4]
        \<and> windowMatches fs (resolvePath cp) (filterFn input) 1 = []
        \<and> page input = 2 \<and> perPage input = 2 \<longrightarrow>
      withRawFilter cp fs input =
        (case loadAll cp [m2, m3]
                (fs\<lparr>calls := calls fs @ [QueryCall (resolvePath cp) 0 100,
                                           QueryCall (resolvePath cp) 100 100]\<rparr>) of
           (Inl e, fs') \<Rightarrow> (Inl e, fs')
         | (Inr ds, fs') \<Rightarrow> (Inr \<lparr>allPages = Finite 3, docs = ds\<rparr>, fs')))
   \<and> (windowMatches fs (resolvePath cp) (filterFn input) 0 = [] \<and> perPage input \<noteq> 0 \<longrightarrow>
      withRawFilter cp fs input =
        (Inr \<lparr>allPages = Finite 0, docs = []\<rparr>,
         fs\<lparr>calls := calls fs @ [QueryCall (resolvePath cp) 0 100]\<rparr>))"
proof (intro conjI allI impI)
  fix M fs1
  assume a: "scanLoop fs (resolvePath cp) (filterFn input) 0 [] = (M, fs1)
        \<and> 0 < perPage input \<and> 1 \<le> page input"
  then have "slice M (perPage input * (page input - 1)) (perPage input * page input)
      = take (nat (perPage input)) (drop (nat (perPage input * (page input - 1))) M)"
    by (simp add: slice_page)
  moreover from a have "Math_ceil_div (length M) (perPage input)
      = Finite \<lceil>real (length M) / real_of_int (perPage input)\<rceil>"
    by (simp add: Math_ceil_div_nonzero)
  moreover from a have "withRawFilter cp fs input = paginate cp input M fs1"
    by (simp add: withRawFilter_def)
  ultimately show "withRawFilter cp fs input =
        (case loadAll cp (take (nat (perPage input))
                            (drop (nat (perPage input * (page input - 1))) M)) fs1 of
           (Inl e, fs') \<Rightarrow> (Inl e, fs')
         | (Inr ds, fs') \<Rightarrow>
             (Inr \<lparr>allPages = Finite \<lceil>real (length M) / real_of_int (perPage input)\<rceil>,
                   docs = ds\<rparr>, fs'))"
    by (simp only: paginate_eq)
next
  fix m0 m1 m2 m3 m4
  assume a: "windowMatches fs (resolvePath cp) (filterFn input) 0 = [m0, m1, m2, m3, m4]
        \<and> windowMatches fs (resolvePath cp) (filterFn input) 1 = []
        \<and> page input = 2 \<and> perPage input = 2"
  then have "scanLoop fs (resolvePath cp) (filterFn input) 0 [] =
      ([] @ concat (map (windowMatches fs (resolvePath cp) (filterFn input)) [0..<1]),
       fs\<lparr>calls := calls fs @ scanCalls (resolvePath cp) 0 (Suc 1)\<rparr>)"
    by (intro scanLoop_run) simp_all
  with a have "scanLoop fs (resolvePath cp) (filterFn input) 0 [] =
      ([m0, m1, m2, m3, m4],
       fs\<lparr>calls := calls fs @ [QueryCall (resolvePath cp) 0 100,
                                  QueryCall (resolvePath cp) 100 100]\<rparr>)"
    by (simp add: scanCalls_def searchPerPage_def)
  then have "withRawFilter cp fs input = paginate cp input [m0, m1, m2, m3, m4]
      (fs\<lparr>calls := calls fs @ [QueryCall (resolvePath cp) 0 100,
                                 QueryCall (resolvePath cp) 100 100]\<rparr>)"
    by (simp add: withRawFilter_def)
  moreover from a have "Math_ceil_div (length [m0, m1, m2, m3, m4]) (perPage input) = Finite 3"
    by (simp add: Math_ceil_div_def)
  moreover from a have
    "slice [m0, m1, m2, m3, m4] (perPage input * (page input - 1)) (perPage input * page input)
       = [m2, m3]"
    by (simp add: slice_def)
  ultimately show "withRawFilter cp fs input =
        (case loadAll cp [m2, m3]
                (fs\<lparr>calls := calls fs @ [QueryCall (resolvePath cp) 0 100,
                                           QueryCall (resolvePath cp) 100 100]\<rparr>) of
           (Inl e, fs') \<Rightarrow> (Inl e, fs')
         | (Inr ds, fs') \<Rightarrow> (Inr \<lparr>allPages = Finite 3, docs = ds\<rparr>, fs'))"
    by (simp only: paginate_eq)
next
  assume a: "windowMatches fs (resolvePath cp) (filterFn input) 0 = [] \<and> perPage input \<noteq> 0"
  then have "scanLoop fs (resolvePath cp) (filterFn input) 0 [] =
      ([], fs\<lparr>calls := calls fs @ [QueryCall (resolvePath cp) 0 100]\<rparr>)"
    by (subst scanLoop_step) (simp add: searchPerPage_def)
  with a show "withRawFilter cp fs input =
        (Inr \<lparr>allPages = Finite 0, docs = []\<rparr>,
         fs\<lparr>calls := calls fs @ [QueryCall (resolvePath cp) 0 100]\<rparr>)"
    by (simp add: withRawFilter_def paginate_def Let_def Math_ceil_div_def slice_def)
qed

theorem withRawFilter_pagination_witness:
  "withRawFilter (Literal ''items'') (itemsStore [3, 10, 20, 40, 99])
       \<lparr>page = 2, perPage = 2, filterFn = isHit\<rparr>
     = (Inr \<lparr>allPages = Finite 3,
             docs = [loadedItem [3, 10, 20, 40, 99] 20, loadedItem [3, 10, 20, 40, 99] 40]\<rparr>,
        (itemsStore [3, 10, 20, 40, 99])
          \<lparr>calls := [QueryCall ''items'' 0 100, QueryCall ''items'' 100 100,
                     GetCall (''items/'' @ itemId 20), GetCall (''items/'' @ itemId 40)]\<rparr>)
   \<and> scanLoop (itemsStore [3, 10, 20, 40, 99]) ''items'' isHit 0 []
     = (map itemId [3, 10, 20, 40, 99],
        (itemsStore [3, 10, 20, 40, 99])
          \<lparr>calls := [QueryCall ''items'' 0 100, QueryCall ''items'' 100 100]\<rparr>)
   \<and> fst (withRawFilter (Literal ''items'') (itemsStore [3, 10, 20, 40, 99])
            \<lparr>page = 3, perPage = 2, filterFn = isHit\<rparr>)
     = Inr \<lparr>allPages = Finite 3, docs = [loadedItem [3, 10, 20, 40, 99] 99]\<rparr>
   \<and> length (scanWindow (itemsStore [120]) ''items'' 0) = 100
   \<and> withRawFilter (Literal ''items'') (itemsStore [120])
       \<lparr>page = 1, perPage = 2, filterFn = isHit\<rparr>
     = (Inr \<lparr>allPages = Finite 0, docs = []\<rparr>,
        (itemsStore [120])\<lparr>calls := [QueryCall ''items'' 0 100]\<rparr>)"
proof -
  let ?H = "[3, 10, 20, 40, 99] :: nat list"
  let ?S = "itemsStore ?H"
  let ?cp = "Literal ''items''"
  let ?in2 = "\<lparr>page = 2, perPage = 2, filterFn = isHit\<rparr> :: nat searchInput"
  let ?in3 = "\<lparr>page = 3, perPage = 2, filterFn = isHit\<rparr> :: nat searchInput"
  let ?in1 = "\<lparr>page = 1, perPage = 2, filterFn = isHit\<rparr> :: nat searchInput"
  let ?fs1 = "?S\<lparr>calls := [QueryCall ''items'' 0 100, QueryCall ''items'' 100 100]\<rparr>"
  have p: "resolvePath ?cp = ''items''"
    by (simp add: resolvePath_def)
  have c: "calls ?S = []" "calls (itemsStore [120]) = []"
    by (simp_all add: itemsStore_def)
  have w0: "windowMatches ?S ''items'' isHit 0
      = [itemId 3, itemId 10, itemId 20, itemId 40, itemId 99]"
    and w1: "windowMatches ?S ''items'' isHit 1 = []"
    and z0: "windowMatches (itemsStore [120]) ''items'' isHit 0 = []"
    by (simp_all only: items_window items_filters list.map)
  have run: "scanLoop ?S ''items'' isHit 0 [] = (map itemId ?H, ?fs1)"
    using scanLoop_run [of ?S "''items''" isHit 1 0 "[]"] w0 w1 c
    by (simp add: scanCalls_def searchPerPage_def)
  have l2: "loadAll ?cp [itemId 20, itemId 40] ?fs1
      = (Inr [loadedItem ?H 20, loadedItem ?H 40],
         ?S\<lparr>calls := [QueryCall ''items'' 0 100, QueryCall ''items'' 100 100,
                        GetCall (''items/'' @ itemId 20), GetCall (''items/'' @ itemId 40)]\<rparr>)"
    using items_loadAll [of "[20, 40]" ?fs1 ?H] by simp
  have l3: "fst (loadAll ?cp [itemId 99] ?fs1) = Inr [loadedItem ?H 99]"
    using items_loadAll [of "[99]" ?fs1 ?H] by simp
  have a: "withRawFilter ?cp ?S ?in2
      = (Inr \<lparr>allPages = Finite 3, docs = [loadedItem ?H 20, loadedItem ?H 40]\<rparr>,
         ?S\<lparr>calls := [QueryCall ''items'' 0 100, QueryCall ''items'' 100 100,
                        GetCall (''items/'' @ itemId 20), GetCall (''items/'' @ itemId 40)]\<rparr>)"
    using withRawFilter_pagination [of ?S ?cp ?in2, THEN conjunct2, THEN conjunct1, rule_format,
        of "itemId 3" "itemId 10" "itemId 20" "itemId 40" "itemId 99"] w0 w1 p c l2
    by simp
  have b: "fst (withRawFilter ?cp ?S ?in3) = Inr \<lparr>allPages = Finite 3, docs = [loadedItem ?H 99]\<rparr>"
    using withRawFilter_pagination [of ?S ?cp ?in3, THEN conjunct1, rule_format,
        of "map itemId ?H" ?fs1] run p l3
    by (simp split: prod.splits sum.splits)
  have len: "length (scanWindow (itemsStore [120]) ''items'' 0) = 100"
    by (simp only: items_scanWindow length_map length_upt)
  have d: "withRawFilter ?cp (itemsStore [120]) ?in1
      = (Inr \<lparr>allPages = Finite 0, docs = []\<rparr>,
         (itemsStore [120])\<lparr>calls := [QueryCall ''items'' 0 100]\<rparr>)"
    using withRawFilter_pagination [of "itemsStore [120]" ?cp ?in1, THEN conjunct2, THEN conjunct2]
      z0 p c
    by simp
  from a run b len d show ?thesis
    by simp
qed

end
